theory Spec2Isabelle
  imports Complex_Main "HOL-Library.AList"
begin

text \<open>
  A model of the real-time messaging and presence layer of the doctor-patient portal: the
  in-memory store of users, messages and conversations (\<open>MemStorage\<close>), the socket server
  with its connection registry and presence broadcast, the REST handlers for messages and
  conversations, and the reconnect backoff of the chat page. Every handler runs to
  completion before the next event is handled, so a handler is a function from the state
  before to the state after. Clock readings are arguments.
\<close>

section \<open>JavaScript values and collections\<close>

text \<open>
  The fragment of JSON values that the handlers inspect. \<open>JUndefined\<close> stands for an
  absent property.
\<close>

datatype json = JUndefined | JNull | JBool bool | JNum int | JStr string

fun js_truthy :: "json \<Rightarrow> bool" where
  "js_truthy JUndefined = False"
| "js_truthy JNull = False"
| "js_truthy (JBool b) = b"
| "js_truthy (JNum n) = (n \<noteq> 0)"
| "js_truthy (JStr s) = (s \<noteq> [])"

text \<open>
  A variable of type \<^verbatim>\<open>number | undefined\<close> holding a user identifier; \<^verbatim>\<open>if (userId)\<close>
  is false for \<^verbatim>\<open>undefined\<close> and for 0.
\<close>

fun truthy_id :: "int option \<Rightarrow> bool" where
  "truthy_id None = False"
| "truthy_id (Some n) = (n \<noteq> 0)"

text \<open>
  A JavaScript \<open>Map\<close> keeps its entries in insertion order: \<open>set\<close> on a present key
  replaces the value in place, \<open>set\<close> on a new key appends, \<open>delete\<close> removes the entry.
  It is modelled by an association list with \<open>map_of\<close> for \<open>get\<close>, \<open>AList.update\<close> for
  \<open>set\<close> and \<open>AList.delete\<close> for \<open>delete\<close>; \<open>values()\<close> is \<open>map snd\<close>.
  A JavaScript \<open>Set\<close> is the list of its members in insertion order.
\<close>

definition set_add :: "'a \<Rightarrow> 'a list \<Rightarrow> 'a list" where
  "set_add x xs = (if x \<in> set xs then xs else xs @ [x])"

definition set_delete :: "'a \<Rightarrow> 'a list \<Rightarrow> 'a list" where
  "set_delete x xs = removeAll x xs"

text \<open>
  \<open>Array.prototype.sort\<close> with a comparator is stable; it is modelled by a stable
  insertion sort driven by the comparator's sign.
\<close>

fun insert_by :: "('a \<Rightarrow> 'a \<Rightarrow> int) \<Rightarrow> 'a \<Rightarrow> 'a list \<Rightarrow> 'a list" where
  "insert_by cmp x [] = [x]"
| "insert_by cmp x (y # ys) =
     (if cmp x y \<le> 0 then x # y # ys else y # insert_by cmp x ys)"

definition js_sort :: "('a \<Rightarrow> 'a \<Rightarrow> int) \<Rightarrow> 'a list \<Rightarrow> 'a list" where
  "js_sort cmp xs = foldr (insert_by cmp) xs []"

section \<open>Data model (\<open>shared/schema.ts\<close>)\<close>

datatype role = Doctor | Patient

datatype message_status = Sent | Delivered | Read

text \<open>Of a user only the identifier and the role are read by the messaging layer.\<close>

record user =
  user_id :: int
  user_role :: role

text \<open>Timestamps are milliseconds (\<open>Date.getTime()\<close>).\<close>

record message =
  msg_id :: int
  fromUserId :: int
  toUserId :: int
  content :: json
  imageData :: json
  status :: message_status
  sentAt :: int

record conversation =
  conv_id :: int
  doctorId :: int
  patientId :: int
  lastMessageAt :: int
  createdAt :: int

text \<open>\<open>InsertMessage\<close>: a message without \<open>id\<close> and \<open>sentAt\<close>; \<open>imageData\<close> and \<open>status\<close>
  are optional.\<close>

record insert_message =
  im_fromUserId :: int
  im_toUserId :: int
  im_content :: json
  im_imageData :: json
  im_status :: "message_status option"

record insert_conversation =
  ic_doctorId :: int
  ic_patientId :: int

section \<open>The in-memory store (\<open>MemStorage\<close>)\<close>

record mem_storage =
  users :: "(int \<times> user) list"
  messages :: "(int \<times> message) list"
  conversations :: "(int \<times> conversation) list"
  currentUserId :: int
  currentMessageId :: int
  currentConversationId :: int

text \<open>The constructor's counters; the two seeded users are added by \<open>createUser\<close>.\<close>

definition empty_storage :: mem_storage where
  "empty_storage =
     \<lparr>users = [], messages = [], conversations = [],
      currentUserId = 1, currentMessageId = 1, currentConversationId = 1\<rparr>"

definition createUser :: "mem_storage \<Rightarrow> role \<Rightarrow> user \<times> mem_storage" where
  "createUser st r =
     (let i = currentUserId st;
          u = \<lparr>user_id = i, user_role = r\<rparr>
      in (u, st\<lparr>currentUserId := i + 1, users := AList.update i u (users st)\<rparr>))"

definition initial_storage :: mem_storage where
  "initial_storage = snd (createUser (snd (createUser empty_storage Doctor)) Patient)"

definition getUser :: "mem_storage \<Rightarrow> int \<Rightarrow> user option" where
  "getUser st i = map_of (users st) i"

definition getDoctors :: "mem_storage \<Rightarrow> user list" where
  "getDoctors st = filter (\<lambda>u. user_role u = Doctor) (map snd (users st))"

definition getConversation :: "mem_storage \<Rightarrow> int \<Rightarrow> conversation option" where
  "getConversation st i = map_of (conversations st) i"

definition getConversationByUsers :: "mem_storage \<Rightarrow> int \<Rightarrow> int \<Rightarrow> conversation option" where
  "getConversationByUsers st d p =
     find (\<lambda>conv. doctorId conv = d \<and> patientId conv = p) (map snd (conversations st))"

definition createConversation ::
  "mem_storage \<Rightarrow> insert_conversation \<Rightarrow> int \<Rightarrow> conversation \<times> mem_storage" where
  "createConversation st ic now =
     (let i = currentConversationId st;
          newConversation =
            \<lparr>conv_id = i, doctorId = ic_doctorId ic, patientId = ic_patientId ic,
             lastMessageAt = now, createdAt = now\<rparr>
      in (newConversation,
          st\<lparr>currentConversationId := i + 1,
             conversations := AList.update i newConversation (conversations st)\<rparr>))"

definition updateConversationLastMessage ::
  "mem_storage \<Rightarrow> int \<Rightarrow> int \<Rightarrow> conversation option \<times> mem_storage" where
  "updateConversationLastMessage st i timestamp =
     (case map_of (conversations st) i of
        None \<Rightarrow> (None, st)
      | Some conv \<Rightarrow>
          (let updatedConversation = conv\<lparr>lastMessageAt := timestamp\<rparr>
           in (Some updatedConversation,
               st\<lparr>conversations := AList.update i updatedConversation (conversations st)\<rparr>)))"

text \<open>
  \<open>createMessage\<close> builds the row (\<open>status\<close> defaults to \<open>sent\<close>, an absent \<open>imageData\<close>
  becomes \<^verbatim>\<open>null\<close>), stores it, and then ensures the conversation: it looks the
  conversation up with the smaller identifier in the doctor position and the larger in the
  patient position; a conversation found has its last-message time updated; when none is
  found and both users exist, one is created with the roles read from the user records.
  \<open>now\<close> is the reading of the clock.
\<close>

definition new_message :: "mem_storage \<Rightarrow> insert_message \<Rightarrow> int \<Rightarrow> message" where
  "new_message st im now =
     \<lparr>msg_id = currentMessageId st, fromUserId = im_fromUserId im, toUserId = im_toUserId im,
      content = im_content im,
      imageData = (if im_imageData im = JUndefined then JNull else im_imageData im),
      status = (case im_status im of None \<Rightarrow> Sent | Some s \<Rightarrow> s),
      sentAt = now\<rparr>"

definition conversation_of_roles :: "user \<Rightarrow> user \<Rightarrow> insert_conversation" where
  "conversation_of_roles fromUser toUser =
     \<lparr>ic_doctorId = (if user_role fromUser = Doctor then user_id fromUser else user_id toUser),
      ic_patientId = (if user_role fromUser = Patient then user_id fromUser else user_id toUser)\<rparr>"

definition ensure_conversation :: "mem_storage \<Rightarrow> int \<Rightarrow> int \<Rightarrow> int \<Rightarrow> mem_storage" where
  "ensure_conversation st fromId toId now =
     (case getConversationByUsers st (min fromId toId) (max fromId toId) of
        Some conv \<Rightarrow> snd (updateConversationLastMessage st (conv_id conv) now)
      | None \<Rightarrow>
          (case getUser st fromId of
             None \<Rightarrow> st
           | Some fromUser \<Rightarrow>
               (case getUser st toId of
                  None \<Rightarrow> st
                | Some toUser \<Rightarrow>
                    snd (createConversation st (conversation_of_roles fromUser toUser) now))))"

definition createMessage ::
  "mem_storage \<Rightarrow> insert_message \<Rightarrow> int \<Rightarrow> message \<times> mem_storage" where
  "createMessage st im now =
     (let newMessage = new_message st im now;
          st1 = st\<lparr>currentMessageId := currentMessageId st + 1,
                   messages := AList.update (msg_id newMessage) newMessage (messages st)\<rparr>
      in (newMessage, ensure_conversation st1 (im_fromUserId im) (im_toUserId im) now))"

definition getMessagesBetweenUsers :: "mem_storage \<Rightarrow> int \<Rightarrow> int \<Rightarrow> message list" where
  "getMessagesBetweenUsers st a b =
     js_sort (\<lambda>x y. sentAt x - sentAt y)
       (filter (\<lambda>msg. (fromUserId msg = a \<and> toUserId msg = b)
                     \<or> (fromUserId msg = b \<and> toUserId msg = a))
          (map snd (messages st)))"

definition getMessagesByConversation :: "mem_storage \<Rightarrow> int \<Rightarrow> message list" where
  "getMessagesByConversation st i =
     (case getConversation st i of
        None \<Rightarrow> []
      | Some conv \<Rightarrow> getMessagesBetweenUsers st (doctorId conv) (patientId conv))"

definition getMessage :: "mem_storage \<Rightarrow> int \<Rightarrow> message option" where
  "getMessage st i = map_of (messages st) i"

definition updateMessageStatus ::
  "mem_storage \<Rightarrow> int \<Rightarrow> message_status \<Rightarrow> message option \<times> mem_storage" where
  "updateMessageStatus st i s =
     (case map_of (messages st) i of
        None \<Rightarrow> (None, st)
      | Some msg \<Rightarrow>
          (let updatedMessage = msg\<lparr>status := s\<rparr>
           in (Some updatedMessage,
               st\<lparr>messages := AList.update i updatedMessage (messages st)\<rparr>)))"

definition updateMessage ::
  "mem_storage \<Rightarrow> int \<Rightarrow> json \<Rightarrow> message option \<times> mem_storage" where
  "updateMessage st i c =
     (case map_of (messages st) i of
        None \<Rightarrow> (None, st)
      | Some msg \<Rightarrow>
          (let updatedMessage = msg\<lparr>content := c\<rparr>
           in (Some updatedMessage,
               st\<lparr>messages := AList.update i updatedMessage (messages st)\<rparr>)))"

definition deleteMessage :: "mem_storage \<Rightarrow> int \<Rightarrow> bool \<times> mem_storage" where
  "deleteMessage st i =
     (case map_of (messages st) i of
        None \<Rightarrow> (False, st)
      | Some _ \<Rightarrow> (True, st\<lparr>messages := AList.delete i (messages st)\<rparr>))"

definition deleteConversation :: "mem_storage \<Rightarrow> int \<Rightarrow> int \<Rightarrow> bool \<times> mem_storage" where
  "deleteConversation st i userId =
     (case map_of (conversations st) i of
        None \<Rightarrow> (False, st)
      | Some conv \<Rightarrow>
          if doctorId conv \<noteq> userId \<and> patientId conv \<noteq> userId then (False, st)
          else
            (let messagesToDelete =
                   map msg_id
                     (filter (\<lambda>m. (fromUserId m = doctorId conv \<and> toUserId m = patientId conv)
                                 \<or> (fromUserId m = patientId conv \<and> toUserId m = doctorId conv))
                        (map snd (messages st)));
                 st1 = foldl (\<lambda>s mid. s\<lparr>messages := AList.delete mid (messages s)\<rparr>)
                         st messagesToDelete
             in (True, st1\<lparr>conversations := AList.delete i (conversations st1)\<rparr>)))"

section \<open>Connection registry and presence broadcaster (\<open>server/routes.ts\<close>)\<close>

datatype ready_state = CONNECTING | OPEN | CLOSING | CLOSED

text \<open>The two frames the server sends: \<open>online_status\<close> with the list of online
  identifiers, and \<open>chat_message\<close> with the message and the optional \<open>status\<close> property.\<close>

datatype payload =
    OnlineStatus "int list"
  | ChatMessage message "message_status option"

text \<open>
  A socket object: its \<open>readyState\<close>, whether \<open>send\<close> on it throws, the frames handed to
  \<open>send\<close> so far (oldest first), and the variable \<open>userId\<close> that the connection handler
  closes over (\<open>None\<close> is \<^verbatim>\<open>undefined\<close>). The registry holds references to sockets, so the
  server state has a heap of sockets addressed by \<open>conn_id\<close>.
\<close>

record connection =
  readyState :: ready_state
  sendThrows :: bool
  outbox :: "payload list"
  conn_userId :: "int option"

type_synonym conn_id = nat

record server =
  sockets :: "conn_id \<Rightarrow> connection"
  clients :: "(int \<times> conn_id) list"
  onlineUsers :: "int list"
  storage :: mem_storage

definition fresh_connection :: connection where
  "fresh_connection =
     \<lparr>readyState = OPEN, sendThrows = False, outbox = [], conn_userId = None\<rparr>"

definition initial_server :: server where
  "initial_server =
     \<lparr>sockets = (\<lambda>_. fresh_connection), clients = [], onlineUsers = [],
      storage = initial_storage\<rparr>"

text \<open>\<open>ws.send(frame)\<close>: \<open>None\<close> when the call throws.\<close>

definition ws_send :: "server \<Rightarrow> conn_id \<Rightarrow> payload \<Rightarrow> server option" where
  "ws_send s ws p =
     (if sendThrows (sockets s ws) then None
      else Some (s\<lparr>sockets := (sockets s)
                    (ws := (sockets s ws)\<lparr>outbox := outbox (sockets s ws) @ [p]\<rparr>)\<rparr>))"

text \<open>\<^verbatim>\<open>clients.delete(userId); onlineUsers.delete(userId);\<close>\<close>

definition evict :: "int \<Rightarrow> server \<Rightarrow> server" where
  "evict u s =
     s\<lparr>clients := AList.delete u (clients s), onlineUsers := set_delete u (onlineUsers s)\<rparr>"

text \<open>The body of the first \<open>clients.forEach\<close> of \<open>broadcastOnlineStatus\<close> (the sweep).\<close>

definition sweep_step :: "server \<Rightarrow> int \<times> conn_id \<Rightarrow> server" where
  "sweep_step s e =
     (case e of (u, ws) \<Rightarrow> if readyState (sockets s ws) \<noteq> OPEN then evict u s else s)"

text \<open>The body of the second \<open>clients.forEach\<close>: send, and evict when the send throws.\<close>

definition broadcast_step :: "int list \<Rightarrow> server \<Rightarrow> int \<times> conn_id \<Rightarrow> server" where
  "broadcast_step onlineUsersList s e =
     (case e of (u, ws) \<Rightarrow>
        if readyState (sockets s ws) = OPEN then
          (case ws_send s ws (OnlineStatus onlineUsersList) of
             Some s' \<Rightarrow> s'
           | None \<Rightarrow> evict u s)
        else s)"

text \<open>
  \<open>broadcastOnlineStatus\<close>: the list is taken from the online-set in the first statement,
  then the first loop sweeps the registry, then the second loop sends the list. Each loop
  body deletes at most the entry it is visiting, so each loop visits the entries that the
  registry holds when the loop starts.
\<close>

definition broadcastOnlineStatus :: "server \<Rightarrow> server" where
  "broadcastOnlineStatus s =
     (let onlineUsersList = onlineUsers s;
          s1 = foldl sweep_step s (clients s)
      in foldl (broadcast_step onlineUsersList) s1 (clients s1))"

section \<open>Socket event handlers (\<open>wss.on("connection")\<close>)\<close>

definition set_conn_userId :: "conn_id \<Rightarrow> int \<Rightarrow> server \<Rightarrow> server" where
  "set_conn_userId ws u s =
     s\<lparr>sockets := (sockets s)(ws := (sockets s ws)\<lparr>conn_userId := Some u\<rparr>)\<rparr>"

text \<open>\<^verbatim>\<open>clients.set(id, ws); onlineUsers.add(id); broadcastOnlineStatus();\<close>\<close>

definition register_client :: "conn_id \<Rightarrow> int \<Rightarrow> server \<Rightarrow> server" where
  "register_client ws u s =
     broadcastOnlineStatus
       (s\<lparr>clients := AList.update u ws (clients s), onlineUsers := set_add u (onlineUsers s)\<rparr>)"

text \<open>A \<open>register\<close> event with user identifier \<open>u\<close> arriving on socket \<open>ws\<close>.\<close>

definition on_register :: "server \<Rightarrow> conn_id \<Rightarrow> int \<Rightarrow> server" where
  "on_register s ws u =
     (let s1 = set_conn_userId ws u s
      in if u \<noteq> 0 then register_client ws u s1 else s1)"

text \<open>
  The transport changes the \<open>readyState\<close> of a socket on its own: to \<open>CLOSING\<close> when the
  closing handshake starts or the peer is lost, to \<open>CLOSED\<close> when the socket is gone.
\<close>

definition set_readyState :: "conn_id \<Rightarrow> ready_state \<Rightarrow> server \<Rightarrow> server" where
  "set_readyState ws r s =
     s\<lparr>sockets := (sockets s)(ws := (sockets s ws)\<lparr>readyState := r\<rparr>)\<rparr>"

text \<open>
  The \<open>close\<close> event of socket \<open>ws\<close>. The library sets \<open>readyState\<close> to \<open>CLOSED\<close> before it
  emits the event; then the two \<open>close\<close> listeners run in the order of their registration:
  the first evicts the identifier in \<open>userId\<close> and broadcasts, the second deletes the
  registry entry of that identifier again.
\<close>

definition on_socket_close :: "server \<Rightarrow> conn_id \<Rightarrow> server" where
  "on_socket_close s ws =
     (let s0 = set_readyState ws CLOSED s
      in case conn_userId (sockets s0 ws) of
           None \<Rightarrow> s0
         | Some u \<Rightarrow>
             if u \<noteq> 0 then
               (let s1 = broadcastOnlineStatus (evict u s0)
                in s1\<lparr>clients := AList.delete u (clients s1)\<rparr>)
             else s0)"

record chat_event =
  ev_fromUserId :: int
  ev_toUserId :: int
  ev_content :: json
  ev_imageData :: json

text \<open>
  The fan-out at the end of the \<open>chat_message\<close> branch: to the recipient's registered
  socket, to the sender's registered socket when it is another socket than the originating
  one, and to the originating socket. A throwing \<open>send\<close> ends the handler in its outer
  \<open>catch\<close>.
\<close>

definition fan_out :: "server \<Rightarrow> conn_id \<Rightarrow> message \<Rightarrow> int \<Rightarrow> int \<Rightarrow> server" where
  "fan_out s ws newMessage actualFromUserId actualToUserId =
     (case (case map_of (clients s) actualToUserId of
              Some recipientWs \<Rightarrow>
                if readyState (sockets s recipientWs) = OPEN
                then ws_send s recipientWs (ChatMessage newMessage None) else Some s
            | None \<Rightarrow> Some s) of
        None \<Rightarrow> s
      | Some s1 \<Rightarrow>
          (case (case map_of (clients s1) actualFromUserId of
                   Some senderWs \<Rightarrow>
                     if readyState (sockets s1 senderWs) = OPEN \<and> senderWs \<noteq> ws
                     then ws_send s1 senderWs (ChatMessage newMessage (Some Delivered))
                     else Some s1
                 | None \<Rightarrow> Some s1) of
             None \<Rightarrow> s1
           | Some s2 \<Rightarrow>
               if readyState (sockets s2 ws) = OPEN then
                 (case ws_send s2 ws (ChatMessage newMessage (Some Delivered)) of
                    None \<Rightarrow> s2
                  | Some s3 \<Rightarrow> s3)
               else s2))"

text \<open>\<^verbatim>\<open>updateMessageStatus(newMessage.id, "delivered"); newMessage.status = "delivered";\<close>
  and the fan-out.\<close>

definition mark_delivered_and_fan_out ::
  "server \<Rightarrow> conn_id \<Rightarrow> message \<Rightarrow> int \<Rightarrow> int \<Rightarrow> server" where
  "mark_delivered_and_fan_out s ws newMessage actualFromUserId actualToUserId =
     fan_out
       (s\<lparr>storage := snd (updateMessageStatus (storage s) (msg_id newMessage) Delivered)\<rparr>)
       ws (newMessage\<lparr>status := Delivered\<rparr>) actualFromUserId actualToUserId"

text \<open>\<^verbatim>\<open>if (!userId && data.fromUserId) { ... }\<close>: an unregistered socket is registered
  under the sender's identifier.\<close>

definition claim_socket :: "server \<Rightarrow> conn_id \<Rightarrow> int \<Rightarrow> server" where
  "claim_socket s ws fromId =
     (if \<not> truthy_id (conn_userId (sockets s ws)) \<and> fromId \<noteq> 0
      then register_client ws fromId (set_conn_userId ws fromId s)
      else s)"

text \<open>
  The conversation step of the \<open>chat_message\<close> branch. The conversation is looked up with
  the smaller of the two identifiers first; one that is found has its last-message time
  updated. When none is found the users of the event (\<open>data.fromUserId\<close>, \<open>data.toUserId\<close>)
  are read again; the handler returns (\<open>None\<close>) if one is missing, and otherwise creates
  the conversation with the roles read from the user records.
\<close>

definition handler_conversation ::
  "mem_storage \<Rightarrow> chat_event \<Rightarrow> int \<Rightarrow> int \<Rightarrow> int \<Rightarrow> mem_storage option" where
  "handler_conversation st ev actualFromUserId actualToUserId now =
     (case getConversationByUsers st
             (if actualFromUserId < actualToUserId then actualFromUserId else actualToUserId)
             (if actualFromUserId < actualToUserId then actualToUserId else actualFromUserId) of
        Some conv \<Rightarrow> Some (snd (updateConversationLastMessage st (conv_id conv) now))
      | None \<Rightarrow>
          (case getUser st (ev_fromUserId ev) of
             None \<Rightarrow> None
           | Some fromUser \<Rightarrow>
               (case getUser st (ev_toUserId ev) of
                  None \<Rightarrow> None
                | Some toUser \<Rightarrow>
                    Some (snd (createConversation st
                                 (conversation_of_roles fromUser toUser) now)))))"

text \<open>The \<open>InsertMessage\<close> the handler passes to \<open>createMessage\<close>;
  \<^verbatim>\<open>data.imageData || undefined\<close> keeps a truthy value only.\<close>

definition event_message :: "chat_event \<Rightarrow> int \<Rightarrow> int \<Rightarrow> insert_message" where
  "event_message ev actualFromUserId actualToUserId =
     \<lparr>im_fromUserId = actualFromUserId, im_toUserId = actualToUserId,
      im_content = ev_content ev,
      im_imageData = (if js_truthy (ev_imageData ev) then ev_imageData ev else JUndefined),
      im_status = Some Sent\<rparr>"

text \<open>
  The part of the \<open>chat_message\<close> branch after the guards: store the message, register the
  socket if it has no user yet, update or create the conversation, mark the message
  delivered, fan out.
\<close>

definition persist_and_deliver ::
  "server \<Rightarrow> conn_id \<Rightarrow> chat_event \<Rightarrow> int \<Rightarrow> int \<Rightarrow> int \<Rightarrow> server" where
  "persist_and_deliver s ws ev now actualFromUserId actualToUserId =
     (let created = createMessage (storage s)
                      (event_message ev actualFromUserId actualToUserId) now;
          newMessage = fst created;
          s2 = claim_socket (s\<lparr>storage := snd created\<rparr>) ws (ev_fromUserId ev)
      in case handler_conversation (storage s2) ev actualFromUserId actualToUserId now of
           None \<Rightarrow> s2
         | Some st3 \<Rightarrow>
             mark_delivered_and_fan_out (s2\<lparr>storage := st3\<rparr>)
               ws newMessage actualFromUserId actualToUserId)"

text \<open>
  The guards of the \<open>chat_message\<close> branch: \<open>None\<close> when the event is dropped, otherwise the
  recipient after the self-send correction.
\<close>

definition resolve_recipient :: "mem_storage \<Rightarrow> chat_event \<Rightarrow> int option" where
  "resolve_recipient st ev =
     (case getUser st (ev_fromUserId ev) of
        None \<Rightarrow> None
      | Some fromUser \<Rightarrow>
          (case getUser st (ev_toUserId ev) of
             None \<Rightarrow> None
           | Some toUser \<Rightarrow>
               if ev_fromUserId ev = ev_toUserId ev then
                 (case user_role fromUser of
                    Patient \<Rightarrow>
                      (case getDoctors st of
                         [] \<Rightarrow> Some (ev_toUserId ev)
                       | d # _ \<Rightarrow> Some (user_id d))
                  | Doctor \<Rightarrow> None)
               else Some (ev_toUserId ev)))"

text \<open>A \<open>chat_message\<close> event arriving on socket \<open>ws\<close> when the clock reads \<open>now\<close>.\<close>

definition on_chat_message :: "server \<Rightarrow> conn_id \<Rightarrow> chat_event \<Rightarrow> int \<Rightarrow> server" where
  "on_chat_message s ws ev now =
     (case resolve_recipient (storage s) ev of
        None \<Rightarrow> s
      | Some actualToUserId \<Rightarrow>
          persist_and_deliver s ws ev now (ev_fromUserId ev) actualToUserId)"

section \<open>REST handlers (\<open>server/routes.ts\<close>)\<close>

text \<open>
  A handler takes the store, the session's \<open>userId\<close> and the request, and returns the HTTP
  status, the body and the store. \<open>authMiddleware\<close> answers 401 when the session's \<open>userId\<close>
  is \<^verbatim>\<open>undefined\<close> or 0. The \<open>:id\<close> path segment is given by what the handlers compute
  from it: the literal \<open>new\<close>, a string that \<open>parseInt\<close> reads as an integer, or any other
  string, which \<open>parseInt\<close> reads as \<open>NaN\<close>.
\<close>

datatype path_id = PathNew | PathNaN | PathInt int

datatype rest_body = Msg string | OneMessage message | Messages "message list"

fun path_int :: "path_id \<Rightarrow> int option" where
  "path_int (PathInt n) = Some n"
| "path_int PathNew = None"
| "path_int PathNaN = None"

definition session_user :: "int option \<Rightarrow> int option" where
  "session_user sess = (if truthy_id sess then sess else None)"

definition delete_conversation_route ::
  "mem_storage \<Rightarrow> int option \<Rightarrow> path_id \<Rightarrow> nat \<times> rest_body \<times> mem_storage" where
  "delete_conversation_route st sess pid =
     (case session_user sess of
        None \<Rightarrow> (401, Msg ''Unauthorized'', st)
      | Some uid \<Rightarrow>
          (case path_int pid of
             None \<Rightarrow> (400, Msg ''Invalid conversation ID'', st)
           | Some conversationId \<Rightarrow>
               (case getConversation st conversationId of
                  None \<Rightarrow> (404, Msg ''Conversation not found'', st)
                | Some conv \<Rightarrow>
                    if doctorId conv \<noteq> uid \<and> patientId conv \<noteq> uid
                    then (403, Msg ''Not authorized to delete this conversation'', st)
                    else
                      (case deleteConversation st conversationId uid of
                         (True, st') \<Rightarrow> (200, Msg ''Conversation deleted successfully'', st')
                       | (False, st') \<Rightarrow> (500, Msg ''Failed to delete conversation'', st')))))"

text \<open>The read-marking loop of \<open>GET /api/conversations/:id/messages\<close>.\<close>

definition mark_read :: "mem_storage \<Rightarrow> message list \<Rightarrow> mem_storage" where
  "mark_read st messagesToUpdate =
     foldl (\<lambda>s m. snd (updateMessageStatus s (msg_id m) Read)) st messagesToUpdate"

definition get_messages_route ::
  "mem_storage \<Rightarrow> int option \<Rightarrow> path_id \<Rightarrow> nat \<times> rest_body \<times> mem_storage" where
  "get_messages_route st sess pid =
     (case session_user sess of
        None \<Rightarrow> (401, Msg ''Unauthorized'', st)
      | Some uid \<Rightarrow>
          (case pid of
             PathNew \<Rightarrow> (200, Messages [], st)
           | PathNaN \<Rightarrow> (400, Msg ''Invalid conversation ID'', st)
           | PathInt conversationId \<Rightarrow>
               (case getConversation st conversationId of
                  None \<Rightarrow> (404, Msg ''Conversation not found'', st)
                | Some conv \<Rightarrow>
                    if doctorId conv \<noteq> uid \<and> patientId conv \<noteq> uid
                    then (403, Msg ''Not authorized to access this conversation'', st)
                    else
                      (let msgs = getMessagesByConversation st conversationId;
                           messagesToUpdate =
                             filter (\<lambda>m. toUserId m = uid \<and> status m \<noteq> Read) msgs
                       in (200, Messages msgs, mark_read st messagesToUpdate)))))"








text \<open>\<open>PATCH /api/messages/:id\<close>; \<open>c\<close> is the \<open>content\<close> property of the body.\<close>

definition patch_message_route ::
  "mem_storage \<Rightarrow> int option \<Rightarrow> path_id \<Rightarrow> json \<Rightarrow> nat \<times> rest_body \<times> mem_storage" where
  "patch_message_route st sess pid c =
     (case session_user sess of
        None \<Rightarrow> (401, Msg ''Unauthorized'', st)
      | Some uid \<Rightarrow>
          (case path_int pid of
             None \<Rightarrow> (404, Msg ''Message not found'', st)
           | Some messageId \<Rightarrow>
               (case getMessage st messageId of
                  None \<Rightarrow> (404, Msg ''Message not found'', st)
                | Some m \<Rightarrow>
                    if fromUserId m \<noteq> uid
                    then (403, Msg ''Unauthorized - You can only edit your own messages'', st)
                    else
                      (case updateMessage st messageId c of
                         (None, st') \<Rightarrow> (500, Msg ''Failed to update message'', st')
                       | (Some updatedMessage, st') \<Rightarrow>
                           (200, OneMessage updatedMessage, st')))))"

definition delete_message_route ::
  "mem_storage \<Rightarrow> int option \<Rightarrow> path_id \<Rightarrow> nat \<times> rest_body \<times> mem_storage" where
  "delete_message_route st sess pid =
     (case session_user sess of
        None \<Rightarrow> (401, Msg ''Unauthorized'', st)
      | Some uid \<Rightarrow>
          (case path_int pid of
             None \<Rightarrow> (404, Msg ''Message not found'', st)
           | Some messageId \<Rightarrow>
               (case getMessage st messageId of
                  None \<Rightarrow> (404, Msg ''Message not found'', st)
                | Some m \<Rightarrow>
                    if fromUserId m \<noteq> uid
                    then (403, Msg ''Unauthorized - You can only delete your own messages'', st)
                    else
                      (case deleteMessage st messageId of
                         (False, st') \<Rightarrow> (500, Msg ''Failed to delete message'', st')
                       | (True, st') \<Rightarrow> (200, Msg ''Message deleted successfully'', st')))))"

section \<open>Client reconnection manager (chat page, \<open>connectWebSocket\<close>)\<close>








section \<open>A store of the running example\<close>

text \<open>
  The seeded store (doctor 1, patient 2) after a second patient, 3, has signed up and the
  doctor has sent one message to patient 2 at time 10.
\<close>

definition scenario_store :: mem_storage where
  "scenario_store =
     \<lparr>users = [(1, \<lparr>user_id = 1, user_role = Doctor\<rparr>),
               (2, \<lparr>user_id = 2, user_role = Patient\<rparr>),
               (3, \<lparr>user_id = 3, user_role = Patient\<rparr>)],
      messages = [(1, \<lparr>msg_id = 1, fromUserId = 1, toUserId = 2, content = JStr ''Hello'',
                       imageData = JNull, status = Sent, sentAt = 10\<rparr>)],
      conversations = [(1, \<lparr>conv_id = 1, doctorId = 1, patientId = 2,
                            lastMessageAt = 10, createdAt = 10\<rparr>)],
      currentUserId = 4, currentMessageId = 2, currentConversationId = 2\<rparr>"

section \<open>Well-formed stores and conversation membership\<close>

text \<open>
  In \<open>MemStorage\<close> the key of every entry of the \<open>messages\<close> map is the \<open>id\<close> of the row
  stored under it, keys are unique, and every key is below the counter that issues the
  next identifier.
\<close>

definition store_ok :: "mem_storage \<Rightarrow> bool" where
  "store_ok st \<longleftrightarrow>
     distinct (map fst (messages st))
   \<and> list_all (\<lambda>(k, m). msg_id m = k \<and> k < currentMessageId st) (messages st)"

text \<open>A message belongs to a conversation when it goes from its doctor to its patient or
  back (the filter of \<open>getMessagesBetweenUsers\<close>).\<close>

definition between_pair :: "conversation \<Rightarrow> message \<Rightarrow> bool" where
  "between_pair conv m \<longleftrightarrow>
     (fromUserId m = doctorId conv \<and> toUserId m = patientId conv)
   \<or> (fromUserId m = patientId conv \<and> toUserId m = doctorId conv)"

section \<open>Notions for the registry\<close>

text \<open>The registry is a \<open>Map\<close>: its keys are unique.\<close>

definition registry_ok :: "server \<Rightarrow> bool" where
  "registry_ok s \<longleftrightarrow> distinct (map fst (clients s))"

text \<open>A socket is live when it is open and \<open>send\<close> on it does not throw.\<close>

definition live :: "server \<Rightarrow> conn_id \<Rightarrow> bool" where
  "live s ws \<longleftrightarrow> readyState (sockets s ws) = OPEN \<and> \<not> sendThrows (sockets s ws)"

text \<open>
  Of a list of registry entries: the identifiers the sweep evicts, the identifiers the send
  loop evicts, and the number of frames the send loop hands to a socket.
\<close>

definition stale_ids :: "server \<Rightarrow> (int \<times> conn_id) list \<Rightarrow> int list" where
  "stale_ids s es = map fst (filter (\<lambda>e. readyState (sockets s (snd e)) \<noteq> OPEN) es)"

definition failed_ids :: "server \<Rightarrow> (int \<times> conn_id) list \<Rightarrow> int list" where
  "failed_ids s es =
     map fst (filter (\<lambda>e. readyState (sockets s (snd e)) = OPEN
                         \<and> sendThrows (sockets s (snd e))) es)"


section \<open>Scenarios\<close>

text \<open>
  Three sockets and three users: user 1 registers socket 1, user 2 registers socket 2, the
  transport of socket 2 starts closing (its \<open>close\<close> event has not fired yet), and user 3
  registers socket 3.
\<close>

definition presence_scenario :: server where
  "presence_scenario =
     on_register (set_readyState 2 CLOSING (on_register (on_register initial_server 1 1) 2 2)) 3 3"

text \<open>The seeded store (doctor 1, patient 2) after a second doctor, 3, has signed up.\<close>

definition two_doctors_store :: mem_storage where
  "two_doctors_store = snd (createUser initial_storage Doctor)"

text \<open>The conversation rows of the unordered pair \<open>(a, b)\<close>.\<close>

definition pair_rows :: "mem_storage \<Rightarrow> int \<Rightarrow> int \<Rightarrow> conversation list" where
  "pair_rows st a b =
     filter (\<lambda>conv. (doctorId conv = a \<and> patientId conv = b)
                  \<or> (doctorId conv = b \<and> patientId conv = a))
       (map snd (conversations st))"

section \<open>Runs of the store and of the server\<close>

text \<open>
  The operations through which the handlers write the store, and the events the socket
  server handles, as data; a run applies a list of them in order. \<open>Transport\<close> is the
  change of a socket's \<open>readyState\<close> by the transport.
\<close>

datatype store_op =
    CreateUser role
  | CreateMessage insert_message int
  | UpdateMessageStatus int message_status
  | UpdateMessage int json
  | DeleteMessage int
  | CreateConversation insert_conversation int
  | UpdateConversationLastMessage int int
  | DeleteConversation int int
  | MarkRead "message list"

fun apply_store_op :: "mem_storage \<Rightarrow> store_op \<Rightarrow> mem_storage" where
  "apply_store_op st (CreateUser r) = snd (createUser st r)"
| "apply_store_op st (CreateMessage im now) = snd (createMessage st im now)"
| "apply_store_op st (UpdateMessageStatus i s) = snd (updateMessageStatus st i s)"
| "apply_store_op st (UpdateMessage i c) = snd (updateMessage st i c)"
| "apply_store_op st (DeleteMessage i) = snd (deleteMessage st i)"
| "apply_store_op st (CreateConversation ic now) = snd (createConversation st ic now)"
| "apply_store_op st (UpdateConversationLastMessage i t) = snd (updateConversationLastMessage st i t)"
| "apply_store_op st (DeleteConversation i u) = snd (deleteConversation st i u)"
| "apply_store_op st (MarkRead ms) = mark_read st ms"

datatype server_event =
    Register conn_id int
  | Close conn_id
  | Chat conn_id chat_event int
  | Transport conn_id ready_state

fun apply_event :: "server \<Rightarrow> server_event \<Rightarrow> server" where
  "apply_event s (Register ws u) = on_register s ws u"
| "apply_event s (Close ws) = on_socket_close s ws"
| "apply_event s (Chat ws ev now) = on_chat_message s ws ev now"
| "apply_event s (Transport ws r) = set_readyState ws r s"

section \<open>Properties of the reconnection manager\<close>






section \<open>Properties of the store and of the REST handlers\<close>

lemma scenario_store_reachable:
  "scenario_store =
     snd (createMessage (snd (createUser initial_storage Patient))
            \<lparr>im_fromUserId = 1, im_toUserId = 2, im_content = JStr ''Hello'',
             im_imageData = JUndefined, im_status = None\<rparr> 10)"
  by (simp add: scenario_store_def initial_storage_def empty_storage_def createUser_def
      createMessage_def new_message_def ensure_conversation_def conversation_of_roles_def
      getConversationByUsers_def getUser_def createConversation_def Let_def)

subsection \<open>Ordering of fetched messages\<close>

lemma set_insert_by: "set (insert_by cmp x xs) = insert x (set xs)"
  by (induction xs) auto

lemma set_js_sort: "set (js_sort cmp xs) = set xs"
  unfolding js_sort_def by (induction xs) (auto simp: set_insert_by)







subsection \<open>Authorization\<close>

text \<open>
  Claim C7 (authorization rejections). For an authenticated caller,
  \<open>DELETE /api/conversations/:id\<close> answers 403 when the caller is neither the doctor nor the
  patient of the conversation, and \<open>PATCH\<close> and \<open>DELETE /api/messages/:id\<close> answer 403 when
  the caller is not the stored sender of the message, whatever the body carries; in each
  case the store is returned as it was.
\<close>

theorem authorization_rejections:
  assumes "session_user sess = Some uid"
  shows "(getConversation st cid = Some conv \<and> doctorId conv \<noteq> uid \<and> patientId conv \<noteq> uid
           \<longrightarrow> delete_conversation_route st sess (PathInt cid)
               = (403, Msg ''Not authorized to delete this conversation'', st))
       \<and> (getMessage st mid = Some m \<and> fromUserId m \<noteq> uid
           \<longrightarrow> patch_message_route st sess (PathInt mid) c
               = (403, Msg ''Unauthorized - You can only edit your own messages'', st))
       \<and> (getMessage st mid = Some m \<and> fromUserId m \<noteq> uid
           \<longrightarrow> delete_message_route st sess (PathInt mid)
               = (403, Msg ''Unauthorized - You can only delete your own messages'', st))"
  using assms
  by (simp add: delete_conversation_route_def patch_message_route_def delete_message_route_def)

theorem authorization_rejections_witness:
  "delete_conversation_route scenario_store (Some 3) (PathInt 1)
     = (403, Msg ''Not authorized to delete this conversation'', scenario_store)
   \<and> patch_message_route scenario_store (Some 3) (PathInt 1) (JStr ''edited'')
     = (403, Msg ''Unauthorized - You can only edit your own messages'', scenario_store)
   \<and> delete_message_route scenario_store (Some 3) (PathInt 1)
     = (403, Msg ''Unauthorized - You can only delete your own messages'', scenario_store)"
proof -
  have a: "session_user (Some 3) = Some 3"
    by (simp add: session_user_def)
  have c: "getConversation scenario_store 1
            = Some \<lparr>conv_id = 1, doctorId = 1, patientId = 2, lastMessageAt = 10, createdAt = 10\<rparr>"
    by (simp add: getConversation_def scenario_store_def)
  have m: "getMessage scenario_store 1
            = Some \<lparr>msg_id = 1, fromUserId = 1, toUserId = 2, content = JStr ''Hello'',
                    imageData = JNull, status = Sent, sentAt = 10\<rparr>"
    by (simp add: getMessage_def scenario_store_def)
  show ?thesis
    using authorization_rejections [OF a, of scenario_store 1
        "\<lparr>conv_id = 1, doctorId = 1, patientId = 2, lastMessageAt = 10, createdAt = 10\<rparr>" 1
        "\<lparr>msg_id = 1, fromUserId = 1, toUserId = 2, content = JStr ''Hello'',
          imageData = JNull, status = Sent, sentAt = 10\<rparr>" "JStr ''edited''"] c m
    by simp
qed

subsection \<open>Frame lemmas of the store operations\<close>


lemma messages_updateConversationLastMessage [simp]:
  "messages (snd (updateConversationLastMessage st i t)) = messages st"
  by (simp add: updateConversationLastMessage_def Let_def split: option.split)

lemma messages_createConversation [simp]:
  "messages (snd (createConversation st ic now)) = messages st"
  by (simp add: createConversation_def Let_def)

lemma users_updateConversationLastMessage [simp]:
  "users (snd (updateConversationLastMessage st i t)) = users st"
  by (simp add: updateConversationLastMessage_def Let_def split: option.split)

lemma users_createConversation [simp]:
  "users (snd (createConversation st ic now)) = users st"
  by (simp add: createConversation_def Let_def)

lemma messages_ensure_conversation [simp]:
  "messages (ensure_conversation st a b now) = messages st"
  by (simp add: ensure_conversation_def split: option.split)

lemma users_ensure_conversation [simp]:
  "users (ensure_conversation st a b now) = users st"
  by (simp add: ensure_conversation_def split: option.split)

lemma fst_createMessage [simp]: "fst (createMessage st im now) = new_message st im now"
  by (simp add: createMessage_def Let_def)

lemma messages_createMessage [simp]:
  "messages (snd (createMessage st im now))
     = AList.update (currentMessageId st) (new_message st im now) (messages st)"
  by (simp add: createMessage_def Let_def new_message_def)

lemma users_createMessage [simp]: "users (snd (createMessage st im now)) = users st"
  by (simp add: createMessage_def Let_def)

subsection \<open>Message creation over REST\<close>





subsection \<open>Read marking by the message fetch\<close>

lemma update_entry_as_map:
  "distinct (map fst al) \<Longrightarrow>
   (case map_of al k of None \<Rightarrow> al | Some v \<Rightarrow> AList.update k (f v) al)
     = map (\<lambda>(k', v). (k', if k' = k then f v else v)) al"
proof (induction al)
  case Nil
  then show ?case by simp
next
  case (Cons a al)
  obtain k0 v0 where a: "a = (k0, v0)" by (cases a)
  show ?case
  proof (cases "k0 = k")
    case True
    with Cons.prems a have "k \<notin> fst ` set al" by auto
    then have "map (\<lambda>(k', v). (k', if k' = k then f v else v)) al = al"
      by (intro map_idI) force
    with True a show ?thesis by simp
  next
    case False
    have d: "distinct (map fst al)" using Cons.prems by simp
    show ?thesis
    proof (cases "map_of al k")
      case None
      with Cons.IH [OF d] False a show ?thesis by simp
    next
      case (Some v)
      with Cons.IH [OF d] False a show ?thesis by simp
    qed
  qed
qed

lemma updateMessageStatus_frame:
  "snd (updateMessageStatus st i s) = st\<lparr>messages := messages (snd (updateMessageStatus st i s))\<rparr>"
  by (simp add: updateMessageStatus_def Let_def split: option.split)

lemma messages_updateMessageStatus:
  assumes "distinct (map fst (messages st))"
  shows "messages (snd (updateMessageStatus st i s))
           = map (\<lambda>(k, m). (k, if k = i then m\<lparr>status := s\<rparr> else m)) (messages st)"
proof -
  have "messages (snd (updateMessageStatus st i s))
          = (case map_of (messages st) i of None \<Rightarrow> messages st
             | Some v \<Rightarrow> AList.update i (v\<lparr>status := s\<rparr>) (messages st))"
    by (simp add: updateMessageStatus_def Let_def split: option.split)
  then show ?thesis
    using update_entry_as_map [OF assms, of i "\<lambda>v. v\<lparr>status := s\<rparr>"] by simp
qed

lemma mark_read_frame: "mark_read st ms = st\<lparr>messages := messages (mark_read st ms)\<rparr>"
proof (induction ms arbitrary: st)
  case Nil
  then show ?case by (simp add: mark_read_def)
next
  case (Cons x xs)
  let ?st1 = "snd (updateMessageStatus st (msg_id x) Read)"
  have step: "mark_read st (x # xs) = mark_read ?st1 xs"
    by (simp add: mark_read_def)
  have "mark_read ?st1 xs = ?st1\<lparr>messages := messages (mark_read ?st1 xs)\<rparr>"
    by (rule Cons.IH)
  also have "\<dots> = st\<lparr>messages := messages (mark_read ?st1 xs)\<rparr>"
    by (subst updateMessageStatus_frame) simp
  finally show ?case using step by simp
qed

lemma messages_mark_read:
  "distinct (map fst (messages st)) \<Longrightarrow>
   messages (mark_read st ms)
     = map (\<lambda>(k, m). (k, if k \<in> msg_id ` set ms then m\<lparr>status := Read\<rparr> else m)) (messages st)"
proof (induction ms arbitrary: st)
  case Nil
  then show ?case by (simp add: mark_read_def)
next
  case (Cons x xs)
  let ?st1 = "snd (updateMessageStatus st (msg_id x) Read)"
  have m1: "messages ?st1
      = map (\<lambda>(k, m). (k, if k = msg_id x then m\<lparr>status := Read\<rparr> else m)) (messages st)"
    by (rule messages_updateMessageStatus [OF Cons.prems])
  then have d1: "distinct (map fst (messages ?st1))"
    using Cons.prems by (simp add: case_prod_unfold comp_def)
  have step: "mark_read st (x # xs) = mark_read ?st1 xs"
    by (simp add: mark_read_def)
  show ?case
    unfolding step Cons.IH [OF d1] m1
    by (auto simp: case_prod_unfold)
qed

lemma get_messages_route_marks_read:
  assumes ok: "store_ok st"
    and auth: "session_user sess = Some uid"
    and conv: "getConversation st cid = Some conv"
    and part: "doctorId conv = uid \<or> patientId conv = uid"
  shows "get_messages_route st sess (PathInt cid)
     = (200, Messages (getMessagesByConversation st cid),
        st\<lparr>messages :=
             map (\<lambda>(k, m). (k, if between_pair conv m \<and> toUserId m = uid
                                then m\<lparr>status := Read\<rparr> else m)) (messages st)\<rparr>)"
proof -
  let ?msgs = "getMessagesByConversation st cid"
  let ?upd = "filter (\<lambda>m. toUserId m = uid \<and> status m \<noteq> Read) ?msgs"
  have d: "distinct (map fst (messages st))" and ids: "\<And>k m. (k, m) \<in> set (messages st) \<Longrightarrow> msg_id m = k"
    using ok by (auto simp: store_ok_def list_all_iff)
  have set_msgs: "set ?msgs = {m \<in> snd ` set (messages st). between_pair conv m}"
    using conv
    by (auto simp: getMessagesByConversation_def getMessagesBetweenUsers_def set_js_sort
        between_pair_def)
  have key: "(k \<in> msg_id ` set ?upd) = (between_pair conv m \<and> toUserId m = uid \<and> status m \<noteq> Read)"
    if km: "(k, m) \<in> set (messages st)" for k m
  proof
    assume "k \<in> msg_id ` set ?upd"
    then obtain m' where m': "m' \<in> set ?msgs" "toUserId m' = uid" "status m' \<noteq> Read" "msg_id m' = k"
      by auto
    then obtain k' where "(k', m') \<in> set (messages st)" and b: "between_pair conv m'"
      using set_msgs by auto
    then have "(k, m') \<in> set (messages st)" using ids m'(4) by auto
    then have "m' = m" using km d by (meson eq_key_imp_eq_value)
    with m' b show "between_pair conv m \<and> toUserId m = uid \<and> status m \<noteq> Read" by simp
  next
    assume a: "between_pair conv m \<and> toUserId m = uid \<and> status m \<noteq> Read"
    have "m \<in> set ?msgs" using km a set_msgs by force
    then have "m \<in> set ?upd" using a by simp
    moreover have "msg_id m = k" using ids km by simp
    ultimately show "k \<in> msg_id ` set ?upd" by blast
  qed
  have "messages (mark_read st ?upd)
      = map (\<lambda>(k, m). (k, if k \<in> msg_id ` set ?upd then m\<lparr>status := Read\<rparr> else m)) (messages st)"
    by (rule messages_mark_read [OF d])
  also have "\<dots> = map (\<lambda>(k, m). (k, if between_pair conv m \<and> toUserId m = uid
                                then m\<lparr>status := Read\<rparr> else m)) (messages st)"
  proof (rule map_cong [OF refl])
    fix e assume e: "e \<in> set (messages st)"
    obtain k m where km: "e = (k, m)" by (cases e)
    have "status m = Read \<Longrightarrow> m\<lparr>status := Read\<rparr> = m" by simp
    then show "(case e of (k, m) \<Rightarrow> (k, if k \<in> msg_id ` set ?upd then m\<lparr>status := Read\<rparr> else m))
      = (case e of (k, m) \<Rightarrow> (k, if between_pair conv m \<and> toUserId m = uid
                                then m\<lparr>status := Read\<rparr> else m))"
      using key [of k m] e km by auto
  qed
  finally have msgs: "messages (mark_read st ?upd)
      = map (\<lambda>(k, m). (k, if between_pair conv m \<and> toUserId m = uid
                                then m\<lparr>status := Read\<rparr> else m)) (messages st)" .
  have "get_messages_route st sess (PathInt cid) = (200, Messages ?msgs, mark_read st ?upd)"
    using auth conv part by (auto simp: get_messages_route_def Let_def)
  then show ?thesis
    using mark_read_frame [of st ?upd] msgs by simp
qed

text \<open>
  Claim C6 (read side effect with frame). Let an authorized participant \<open>uid\<close> fetch the
  messages of conversation \<open>cid\<close>. The answer is 200 with the messages of the conversation.
  Afterwards every stored message of the conversation that is addressed to \<open>uid\<close> has status
  \<open>read\<close>; every stored message is still stored under its identifier and agrees with its
  earlier value on every field but \<open>status\<close>; and a message that is not addressed to \<open>uid\<close>,
  or that does not belong to the conversation, is unchanged. Users and conversations are
  unchanged too.
\<close>

theorem read_side_effect_with_frame:
  assumes "store_ok st"
    and "session_user sess = Some uid"
    and "getConversation st cid = Some conv"
    and "doctorId conv = uid \<or> patientId conv = uid"
  shows "\<exists>st'. get_messages_route st sess (PathInt cid)
                 = (200, Messages (getMessagesByConversation st cid), st')
           \<and> users st' = users st \<and> conversations st' = conversations st
           \<and> map fst (messages st') = map fst (messages st)
           \<and> (\<forall>i m. getMessage st i = Some m \<longrightarrow>
                 (\<exists>m'. getMessage st' i = Some m'
                     \<and> m'\<lparr>status := status m\<rparr> = m
                     \<and> (between_pair conv m \<and> toUserId m = uid \<longrightarrow> status m' = Read)
                     \<and> (toUserId m \<noteq> uid \<longrightarrow> m' = m)
                     \<and> (\<not> between_pair conv m \<longrightarrow> m' = m)))"
proof -
  let ?g = "\<lambda>m. if between_pair conv m \<and> toUserId m = uid then m\<lparr>status := Read\<rparr> else m"
  let ?st' = "st\<lparr>messages := map (\<lambda>(k, m). (k, ?g m)) (messages st)\<rparr>"
  have run: "get_messages_route st sess (PathInt cid)
               = (200, Messages (getMessagesByConversation st cid), ?st')"
    by (rule get_messages_route_marks_read [OF assms])
  have keys: "map fst (messages ?st') = map fst (messages st)"
    by (simp add: case_prod_unfold comp_def)
  have look: "getMessage ?st' i = map_option ?g (getMessage st i)" for i
    by (simp add: getMessage_def map_of_map)
  have each: "\<exists>m'. getMessage ?st' i = Some m'
                     \<and> m'\<lparr>status := status m\<rparr> = m
                     \<and> (between_pair conv m \<and> toUserId m = uid \<longrightarrow> status m' = Read)
                     \<and> (toUserId m \<noteq> uid \<longrightarrow> m' = m)
                     \<and> (\<not> between_pair conv m \<longrightarrow> m' = m)"
    if "getMessage st i = Some m" for i m
    using that look [of i] by simp
  show ?thesis
    using run keys each by (intro exI [of _ ?st']) simp
qed

theorem read_side_effect_witness:
  "\<exists>st'. get_messages_route scenario_store (Some 2) (PathInt 1)
            = (200, Messages (getMessagesByConversation scenario_store 1), st')
        \<and> conversations st' = conversations scenario_store
        \<and> (\<exists>m'. getMessage st' 1 = Some m' \<and> status m' = Read \<and> content m' = JStr ''Hello'')"
proof -
  have ok: "store_ok scenario_store"
    by (simp add: store_ok_def scenario_store_def)
  have a: "session_user (Some 2) = Some 2"
    by (simp add: session_user_def)
  have c: "getConversation scenario_store 1
            = Some \<lparr>conv_id = 1, doctorId = 1, patientId = 2, lastMessageAt = 10, createdAt = 10\<rparr>"
    by (simp add: getConversation_def scenario_store_def)
  have p: "doctorId \<lparr>conv_id = 1, doctorId = 1, patientId = 2, lastMessageAt = 10, createdAt = 10\<rparr> = 2
         \<or> patientId \<lparr>conv_id = 1, doctorId = 1, patientId = 2, lastMessageAt = 10, createdAt = 10\<rparr> = 2"
    by simp
  have m: "getMessage scenario_store 1
            = Some \<lparr>msg_id = 1, fromUserId = 1, toUserId = 2, content = JStr ''Hello'',
                    imageData = JNull, status = Sent, sentAt = 10\<rparr>"
    by (simp add: getMessage_def scenario_store_def)
  from read_side_effect_with_frame [OF ok a c p]
  obtain st' where run: "get_messages_route scenario_store (Some 2) (PathInt 1)
            = (200, Messages (getMessagesByConversation scenario_store 1), st')"
    and convs: "conversations st' = conversations scenario_store"
    and each: "\<forall>i m. getMessage scenario_store i = Some m \<longrightarrow>
                 (\<exists>m'. getMessage st' i = Some m'
                     \<and> m'\<lparr>status := status m\<rparr> = m
                     \<and> (between_pair \<lparr>conv_id = 1, doctorId = 1, patientId = 2,
                                      lastMessageAt = 10, createdAt = 10\<rparr> m \<and> toUserId m = 2
                          \<longrightarrow> status m' = Read)
                     \<and> (toUserId m \<noteq> 2 \<longrightarrow> m' = m)
                     \<and> (\<not> between_pair \<lparr>conv_id = 1, doctorId = 1, patientId = 2,
                                      lastMessageAt = 10, createdAt = 10\<rparr> m \<longrightarrow> m' = m))"
    by blast
  from each m obtain m' where m': "getMessage st' 1 = Some m'"
      "m'\<lparr>status := Sent\<rparr> = \<lparr>msg_id = 1, fromUserId = 1, toUserId = 2, content = JStr ''Hello'',
                    imageData = JNull, status = Sent, sentAt = 10\<rparr>"
      "status m' = Read"
    by (fastforce simp: between_pair_def)
  from m'(2) have "content m' = JStr ''Hello''"
    by (metis message.select_convs(4) message.simps(11) message.surjective message.update_convs(6))
  with run convs m' show ?thesis by blast
qed

section \<open>Properties of the registry and of the presence broadcaster\<close>

subsection \<open>evict\<close>

lemma evict_simps [simp]:
  "sockets (evict u s) = sockets s"
  "storage (evict u s) = storage s"
  "clients (evict u s) = filter (\<lambda>e. fst e \<noteq> u) (clients s)"
  "onlineUsers (evict u s) = filter (\<lambda>v. v \<noteq> u) (onlineUsers s)"
  by (auto simp: evict_def set_delete_def AList.delete_eq removeAll_filter_not_eq case_prod_unfold
      intro: filter_cong)

subsection \<open>sweep\<close>

lemma sweep_step_simps [simp]:
  "sockets (sweep_step s e) = sockets s"
  "storage (sweep_step s e) = storage s"
  by (simp_all add: sweep_step_def split: prod.split)

lemma sweep_sockets [simp]: "sockets (foldl sweep_step s es) = sockets s"
  by (induction es arbitrary: s) simp_all

lemma sweep_storage [simp]: "storage (foldl sweep_step s es) = storage s"
  by (induction es arbitrary: s) simp_all

lemma stale_ids_sockets: "sockets s' = sockets s \<Longrightarrow> stale_ids s' es = stale_ids s es"
  by (simp add: stale_ids_def)

lemma sweep_clients:
  "clients (foldl sweep_step s es) = filter (\<lambda>e. fst e \<notin> set (stale_ids s es)) (clients s)"
proof (induction es arbitrary: s)
  case Nil
  then show ?case by (simp add: stale_ids_def)
next
  case (Cons e es)
  have st: "stale_ids (sweep_step s e) es = stale_ids s es"
    by (rule stale_ids_sockets) simp
  show ?case
    unfolding foldl_Cons Cons.IH st
    by (cases e) (auto simp: sweep_step_def stale_ids_def intro: filter_cong)
qed


lemma sweep_clients_distinct:
  assumes "distinct (map fst (clients s))"
  shows "clients (foldl sweep_step s (clients s))
           = filter (\<lambda>e. readyState (sockets s (snd e)) = OPEN) (clients s)"
  unfolding sweep_clients
proof (rule filter_cong [OF refl])
  fix e assume e: "e \<in> set (clients s)"
  show "(fst e \<notin> set (stale_ids s (clients s))) = (readyState (sockets s (snd e)) = OPEN)"
  proof
    assume "fst e \<notin> set (stale_ids s (clients s))"
    with e show "readyState (sockets s (snd e)) = OPEN"
      by (force simp: stale_ids_def)
  next
    assume o: "readyState (sockets s (snd e)) = OPEN"
    show "fst e \<notin> set (stale_ids s (clients s))"
    proof
      assume "fst e \<in> set (stale_ids s (clients s))"
      then obtain e' where e': "e' \<in> set (clients s)" "fst e' = fst e"
          "readyState (sockets s (snd e')) \<noteq> OPEN"
        by (auto simp: stale_ids_def)
      then have "e' = e"
        using e assms by (metis eq_key_imp_eq_value prod.collapse)
      with e' o show False by simp
    qed
  qed
qed

subsection \<open>send loop\<close>

lemma ws_send_cases:
  "ws_send s ws p = (if sendThrows (sockets s ws) then None
     else Some (s\<lparr>sockets := (sockets s)(ws := (sockets s ws)\<lparr>outbox := outbox (sockets s ws) @ [p]\<rparr>)\<rparr>))"
  by (simp add: ws_send_def)

lemma broadcast_step_simps [simp]:
  "storage (broadcast_step l s e) = storage s"
  "readyState (sockets (broadcast_step l s e) c) = readyState (sockets s c)"
  "sendThrows (sockets (broadcast_step l s e) c) = sendThrows (sockets s c)"
  "conn_userId (sockets (broadcast_step l s e) c) = conn_userId (sockets s c)"
  by (auto simp: broadcast_step_def ws_send_def split: prod.split)

lemma broadcast_loop_simps [simp]:
  "storage (foldl (broadcast_step l) s es) = storage s"
  "readyState (sockets (foldl (broadcast_step l) s es) c) = readyState (sockets s c)"
  "sendThrows (sockets (foldl (broadcast_step l) s es) c) = sendThrows (sockets s c)"
  "conn_userId (sockets (foldl (broadcast_step l) s es) c) = conn_userId (sockets s c)"
  by (induction es arbitrary: s) simp_all

lemma failed_ids_cong:
  "(\<And>c. readyState (sockets s' c) = readyState (sockets s c)) \<Longrightarrow>
   (\<And>c. sendThrows (sockets s' c) = sendThrows (sockets s c)) \<Longrightarrow>
   failed_ids s' es = failed_ids s es"
  by (simp add: failed_ids_def)


lemma broadcast_step_clients:
  "clients (broadcast_step l s e) = filter (\<lambda>x. fst x \<notin> set (failed_ids s [e])) (clients s)"
  by (cases e) (auto simp: broadcast_step_def ws_send_def failed_ids_def intro: filter_cong)



lemma failed_ids_Cons: "failed_ids s (e # es) = failed_ids s [e] @ failed_ids s es"
  by (simp add: failed_ids_def)


lemma broadcast_loop_clients:
  "clients (foldl (broadcast_step l) s es)
     = filter (\<lambda>x. fst x \<notin> set (failed_ids s es)) (clients s)"
proof (induction es arbitrary: s)
  case Nil
  then show ?case by (simp add: failed_ids_def)
next
  case (Cons e es)
  have f: "failed_ids (broadcast_step l s e) es = failed_ids s es"
    by (rule failed_ids_cong) simp_all
  show ?case
    unfolding foldl_Cons Cons.IH f broadcast_step_clients failed_ids_Cons [of s e es]
    by (auto intro: filter_cong)
qed



lemma set_update_distinct:
  "distinct (map fst al) \<Longrightarrow>
   set (AList.update k v al) = insert (k, v) {e \<in> set al. fst e \<noteq> k}"
  by (induction al) (auto simp: rev_image_eqI)

subsection \<open>broadcastOnlineStatus\<close>

lemma broadcast_simps [simp]:
  "storage (broadcastOnlineStatus s) = storage s"
  "readyState (sockets (broadcastOnlineStatus s) c) = readyState (sockets s c)"
  "sendThrows (sockets (broadcastOnlineStatus s) c) = sendThrows (sockets s c)"
  "conn_userId (sockets (broadcastOnlineStatus s) c) = conn_userId (sockets s c)"
  by (simp_all add: broadcastOnlineStatus_def Let_def)

lemma live_broadcast [simp]: "live (broadcastOnlineStatus s) c = live s c"
  by (simp add: live_def)

lemma broadcast_clients:
  assumes "registry_ok s"
  shows "clients (broadcastOnlineStatus s) = filter (\<lambda>e. live s (snd e)) (clients s)"
proof -
  let ?s1 = "foldl sweep_step s (clients s)"
  let ?open = "filter (\<lambda>e. readyState (sockets s (snd e)) = OPEN) (clients s)"
  have d: "distinct (map fst (clients s))" using assms by (simp add: registry_ok_def)
  have c1: "clients ?s1 = ?open" by (rule sweep_clients_distinct [OF d])
  have d1: "distinct (map fst ?open)" using d by (simp add: distinct_map_filter)
  have "clients (broadcastOnlineStatus s)
          = filter (\<lambda>x. fst x \<notin> set (failed_ids ?s1 ?open)) ?open"
    by (simp add: broadcastOnlineStatus_def Let_def broadcast_loop_clients c1)
  also have "\<dots> = filter (\<lambda>e. \<not> sendThrows (sockets s (snd e))) ?open"
  proof (rule filter_cong [OF refl])
    fix e assume e: "e \<in> set ?open"
    show "(fst e \<notin> set (failed_ids ?s1 ?open)) = (\<not> sendThrows (sockets s (snd e)))"
    proof
      assume "fst e \<notin> set (failed_ids ?s1 ?open)"
      with e show "\<not> sendThrows (sockets s (snd e))"
        by (force simp: failed_ids_def)
    next
      assume n: "\<not> sendThrows (sockets s (snd e))"
      show "fst e \<notin> set (failed_ids ?s1 ?open)"
      proof
        assume "fst e \<in> set (failed_ids ?s1 ?open)"
        then obtain e' where e': "e' \<in> set ?open" "fst e' = fst e" "sendThrows (sockets s (snd e'))"
          by (auto simp: failed_ids_def)
        then have "e' = e"
          using e d1 by (metis eq_key_imp_eq_value prod.collapse)
        with e' n show False by simp
      qed
    qed
  qed
  also have "\<dots> = filter (\<lambda>e. live s (snd e)) (clients s)"
    by (auto simp: live_def intro: filter_cong)
  finally show ?thesis .
qed

lemma broadcast_registry_ok: "registry_ok s \<Longrightarrow> registry_ok (broadcastOnlineStatus s)"
  using broadcast_clients [of s] by (simp add: registry_ok_def distinct_map_filter)




subsection \<open>register\<close>

lemma set_conn_userId_simps [simp]:
  "storage (set_conn_userId ws u s) = storage s"
  "clients (set_conn_userId ws u s) = clients s"
  "onlineUsers (set_conn_userId ws u s) = onlineUsers s"
  "readyState (sockets (set_conn_userId ws u s) c) = readyState (sockets s c)"
  "sendThrows (sockets (set_conn_userId ws u s) c) = sendThrows (sockets s c)"
  "outbox (sockets (set_conn_userId ws u s) c) = outbox (sockets s c)"
  "conn_userId (sockets (set_conn_userId ws u s) c)
     = (if c = ws then Some u else conn_userId (sockets s c))"
  by (simp_all add: set_conn_userId_def)

lemma live_set_conn_userId [simp]: "live (set_conn_userId ws u s) c = live s c"
  by (simp add: live_def)

lemma live_update_registry [simp]:
  "live (s\<lparr>clients := cs, onlineUsers := os\<rparr>) c = live s c"
  by (simp add: live_def)

lemma register_client_simps [simp]:
  "storage (register_client ws u s) = storage s"
  "readyState (sockets (register_client ws u s) c) = readyState (sockets s c)"
  "sendThrows (sockets (register_client ws u s) c) = sendThrows (sockets s c)"
  "conn_userId (sockets (register_client ws u s) c) = conn_userId (sockets s c)"
  by (simp_all add: register_client_def)

lemma register_client_clients:
  assumes "registry_ok s"
  shows "clients (register_client ws u s)
           = filter (\<lambda>e. live s (snd e)) (AList.update u ws (clients s))"
proof -
  have "registry_ok (s\<lparr>clients := AList.update u ws (clients s),
                        onlineUsers := set_add u (onlineUsers s)\<rparr>)"
    using assms by (simp add: registry_ok_def distinct_update)
  from broadcast_clients [OF this] show ?thesis
    by (simp add: register_client_def)
qed

lemma register_client_registry_ok:
  "registry_ok s \<Longrightarrow> registry_ok (register_client ws u s)"
  using register_client_clients [of s ws u]
  by (simp add: registry_ok_def distinct_map_filter distinct_update)

lemma on_register_simps [simp]:
  "storage (on_register s ws u) = storage s"
  "readyState (sockets (on_register s ws u) c) = readyState (sockets s c)"
  "sendThrows (sockets (on_register s ws u) c) = sendThrows (sockets s c)"
  "conn_userId (sockets (on_register s ws u) c)
     = (if c = ws then Some u else conn_userId (sockets s c))"
  by (simp_all add: on_register_def Let_def)

lemma live_on_register [simp]: "live (on_register s ws u) c = live s c"
  by (simp add: live_def)


lemma on_register_registry_ok:
  "registry_ok s \<Longrightarrow> registry_ok (on_register s ws u)"
  using register_client_registry_ok [of "set_conn_userId ws u s" ws u]
  by (simp add: on_register_def Let_def registry_ok_def)



subsection \<open>close\<close>


lemma set_readyState_simps [simp]:
  "storage (set_readyState ws r s) = storage s"
  "clients (set_readyState ws r s) = clients s"
  "onlineUsers (set_readyState ws r s) = onlineUsers s"
  "readyState (sockets (set_readyState ws r s) c) = (if c = ws then r else readyState (sockets s c))"
  "sendThrows (sockets (set_readyState ws r s) c) = sendThrows (sockets s c)"
  "outbox (sockets (set_readyState ws r s) c) = outbox (sockets s c)"
  "conn_userId (sockets (set_readyState ws r s) c) = conn_userId (sockets s c)"
  by (simp_all add: set_readyState_def)

lemma registry_ok_evict: "registry_ok s \<Longrightarrow> registry_ok (evict u s)"
  by (simp add: registry_ok_def distinct_map_filter)

lemma registry_ok_set_readyState [simp]: "registry_ok (set_readyState ws r s) = registry_ok s"
  by (simp add: registry_ok_def)

subsection \<open>Last registration wins\<close>



subsection \<open>The close of a superseded socket\<close>



section \<open>Properties of the chat-message handler\<close>

lemma storage_claim_socket [simp]: "storage (claim_socket s ws f) = storage s"
  by (simp add: claim_socket_def)

lemma ws_send_storage: "ws_send s ws p = Some s' \<Longrightarrow> storage s' = storage s"
  by (auto simp: ws_send_def split: if_splits)

lemma storage_fan_out [simp]: "storage (fan_out s ws m f t) = storage s"
  unfolding fan_out_def
  by (auto split: option.splits if_splits dest!: ws_send_storage)

lemma resolve_recipient_users:
  assumes "resolve_recipient st ev = Some a"
  shows "\<exists>fu tu. getUser st (ev_fromUserId ev) = Some fu \<and> getUser st (ev_toUserId ev) = Some tu"
  using assms by (auto simp: resolve_recipient_def split: option.splits)

lemma getUser_cong: "users st' = users st \<Longrightarrow> getUser st' i = getUser st i"
  by (simp add: getUser_def)

lemma handler_conversation_messages:
  "handler_conversation st ev f t now = Some st3 \<Longrightarrow> messages st3 = messages st"
  by (auto simp: handler_conversation_def split: option.splits)

lemma handler_conversation_total:
  assumes "getUser st (ev_fromUserId ev) = Some fu" and "getUser st (ev_toUserId ev) = Some tu"
  shows "\<exists>st3. handler_conversation st ev f t now = Some st3"
  using assms by (simp add: handler_conversation_def split: option.split)

text \<open>
  Claim C4 (write-through delivered status). Let a \<open>chat_message\<close> event pass the
  user-resolution and self-send guards, with \<open>actualTo\<close> the recipient the guards settle on.
  The message is created with status \<open>sent\<close> under the next message identifier, and when
  the handler has run the store holds it under that identifier with status \<open>delivered\<close> and
  all other fields as created. Nothing is assumed about the registry: this holds whether or
  not the recipient has a registry entry or any socket is open.
\<close>

theorem chat_message_marked_delivered:
  fixes now :: int
  assumes "resolve_recipient (storage s) ev = Some actualTo"
  defines "m \<equiv> fst (createMessage (storage s) (event_message ev (ev_fromUserId ev) actualTo) now)"
  shows "status m = Sent
       \<and> msg_id m = currentMessageId (storage s)
       \<and> getMessage (storage (on_chat_message s ws ev now)) (msg_id m)
           = Some (m\<lparr>status := Delivered\<rparr>)"
proof -
  let ?im = "event_message ev (ev_fromUserId ev) actualTo"
  let ?st1 = "snd (createMessage (storage s) ?im now)"
  let ?s2 = "claim_socket (s\<lparr>storage := ?st1\<rparr>) ws (ev_fromUserId ev)"
  have m: "m = new_message (storage s) ?im now" by (simp add: m_def)
  have sent: "status m = Sent" by (simp add: m new_message_def event_message_def)
  have mid: "msg_id m = currentMessageId (storage s)" by (simp add: m new_message_def)
  obtain fu tu where us: "getUser (storage s) (ev_fromUserId ev) = Some fu"
      "getUser (storage s) (ev_toUserId ev) = Some tu"
    using resolve_recipient_users [OF assms(1)] by blast
  have st2: "storage ?s2 = ?st1" by simp
  have "getUser ?st1 (ev_fromUserId ev) = Some fu" "getUser ?st1 (ev_toUserId ev) = Some tu"
    using us by (simp_all add: getUser_def)
  then obtain st3 where h: "handler_conversation ?st1 ev (ev_fromUserId ev) actualTo now = Some st3"
    using handler_conversation_total by blast
  have msgs3: "messages st3 = AList.update (msg_id m) m (messages (storage s))"
    using handler_conversation_messages [OF h] by (simp add: m mid [unfolded m])
  have run: "on_chat_message s ws ev now
       = mark_delivered_and_fan_out (?s2\<lparr>storage := st3\<rparr>) ws m (ev_fromUserId ev) actualTo"
    using assms(1) h st2
    by (simp add: on_chat_message_def persist_and_deliver_def Let_def m_def)
  have "getMessage (snd (updateMessageStatus st3 (msg_id m) Delivered)) (msg_id m)
          = Some (m\<lparr>status := Delivered\<rparr>)"
    by (simp add: updateMessageStatus_def getMessage_def msgs3 update_conv' Let_def)
  then have "getMessage (storage (on_chat_message s ws ev now)) (msg_id m)
          = Some (m\<lparr>status := Delivered\<rparr>)"
    by (simp add: run mark_delivered_and_fan_out_def)
  with sent mid show ?thesis by simp
qed

theorem chat_message_marked_delivered_witness:
  "map_of (clients initial_server) 2 = None
   \<and> getMessage (storage (on_chat_message initial_server 1
          \<lparr>ev_fromUserId = 1, ev_toUserId = 2, ev_content = JStr ''Hello'',
           ev_imageData = JUndefined\<rparr> 10)) 1
       = Some \<lparr>msg_id = 1, fromUserId = 1, toUserId = 2, content = JStr ''Hello'',
               imageData = JNull, status = Delivered, sentAt = 10\<rparr>"
proof -
  have h: "resolve_recipient (storage initial_server)
             \<lparr>ev_fromUserId = 1, ev_toUserId = 2, ev_content = JStr ''Hello'',
              ev_imageData = JUndefined\<rparr> = Some 2"
    by (simp add: resolve_recipient_def getUser_def initial_server_def initial_storage_def
        empty_storage_def createUser_def Let_def)
  have c: "currentMessageId (storage initial_server) = 1"
    by (simp add: initial_server_def initial_storage_def empty_storage_def createUser_def Let_def)
  have r: "map_of (clients initial_server) 2 = None"
    by (simp add: initial_server_def)
  show ?thesis
    using chat_message_marked_delivered [OF h, of 10 1] c r
    by (simp add: new_message_def event_message_def)
qed

section \<open>The code at two scenarios\<close>

lemmas eval_registry =
  on_register_def register_client_def set_conn_userId_def broadcastOnlineStatus_def
  sweep_step_def broadcast_step_def ws_send_def evict_def set_add_def set_delete_def
  set_readyState_def initial_server_def fresh_connection_def Let_def

text \<open>
  Claim C2 (presence completeness) at the scenario: the registration of user 3 runs
  \<open>broadcastOnlineStatus\<close> on a registry whose entry for user 2 is stale. The sweep evicts
  user 2 from the registry and from the online-set, which is \<open>[1, 3]\<close> afterwards, but the
  frame handed to sockets 1 and 3 carries the list taken before the sweep, \<open>[1, 2, 3]\<close>.
\<close>

theorem broadcast_sends_list_taken_before_sweep:
  "clients presence_scenario = [(1, 1), (3, 3)]
   \<and> onlineUsers presence_scenario = [1, 3]
   \<and> outbox (sockets presence_scenario 1)
       = [OnlineStatus [1], OnlineStatus [1, 2], OnlineStatus [1, 2, 3]]
   \<and> outbox (sockets presence_scenario 3) = [OnlineStatus [1, 2, 3]]"
  by (simp add: presence_scenario_def eval_registry)

lemmas eval_store =
  two_doctors_store_def initial_storage_def empty_storage_def createUser_def createMessage_def
  new_message_def ensure_conversation_def conversation_of_roles_def getConversationByUsers_def
  getUser_def createConversation_def updateConversationLastMessage_def Let_def pair_rows_def

text \<open>
  Claim C1 (conversation uniqueness) where the doctor's identifier is the larger one:
  doctor 3 and patient 2. Two messages through \<open>createMessage\<close> leave two conversation rows
  for the pair, and so does a single \<open>chat_message\<close> event through the socket handler: the
  lookup puts the smaller identifier in the doctor position and never finds the row, which
  was stored with the roles of the users.
\<close>

theorem conversation_rows_duplicated:
  "length (pair_rows
       (snd (createMessage
          (snd (createMessage two_doctors_store
             \<lparr>im_fromUserId = 3, im_toUserId = 2, im_content = JStr ''Hello'',
              im_imageData = JUndefined, im_status = None\<rparr> 10))
          \<lparr>im_fromUserId = 2, im_toUserId = 3, im_content = JStr ''Hi'',
           im_imageData = JUndefined, im_status = None\<rparr> 20)) 3 2) = 2
   \<and> length (pair_rows
       (storage (on_chat_message (initial_server\<lparr>storage := two_doctors_store\<rparr>) 1
          \<lparr>ev_fromUserId = 3, ev_toUserId = 2, ev_content = JStr ''Hello'',
           ev_imageData = JUndefined\<rparr> 10)) 3 2) = 2"
  by (simp add: eval_store on_chat_message_def resolve_recipient_def persist_and_deliver_def
      event_message_def claim_socket_def handler_conversation_def
      mark_delivered_and_fan_out_def updateMessageStatus_def fan_out_def eval_registry)

section \<open>Invariants of the store and of the registry\<close>

subsection \<open>The store stays well-formed\<close>

lemma store_ok_alt:
  "store_ok st \<longleftrightarrow> distinct (map fst (messages st))
     \<and> (\<forall>(k, m) \<in> set (messages st). msg_id m = k \<and> k < currentMessageId st)"
  by (simp add: store_ok_def list_all_iff)

lemma store_ok_same_messages:
  "store_ok st \<Longrightarrow> messages st' = messages st \<Longrightarrow> currentMessageId st' = currentMessageId st
     \<Longrightarrow> store_ok st'"
  by (simp add: store_ok_def)

lemma store_ok_initial: "store_ok initial_storage"
  by (simp add: store_ok_def initial_storage_def empty_storage_def createUser_def Let_def)

lemma store_ok_createUser: "store_ok st \<Longrightarrow> store_ok (snd (createUser st r))"
  by (simp add: store_ok_def createUser_def Let_def)

lemma currentMessageId_ensure_conversation [simp]:
  "currentMessageId (ensure_conversation st a b now) = currentMessageId st"
  by (simp add: ensure_conversation_def createConversation_def updateConversationLastMessage_def
      Let_def split: option.split)

lemma store_ok_update:
  assumes "store_ok st" and "msg_id m = i" and "i < c" and "currentMessageId st \<le> c"
  shows "store_ok (st\<lparr>currentMessageId := c, messages := AList.update i m (messages st)\<rparr>)"
proof -
  have d: "distinct (map fst (messages st))"
    and inv: "\<forall>(k, m) \<in> set (messages st). msg_id m = k \<and> k < currentMessageId st"
    using assms(1) by (auto simp: store_ok_alt)
  show ?thesis
    unfolding store_ok_alt
    using d inv assms(2-4) by (auto simp: distinct_update set_update_distinct [OF d])
qed

lemma store_ok_filter:
  assumes "store_ok st"
  shows "store_ok (st\<lparr>messages := filter P (messages st)\<rparr>)"
  using assms by (auto simp: store_ok_alt distinct_map_filter)

lemma store_ok_createMessage:
  assumes "store_ok st"
  shows "store_ok (snd (createMessage st im now))"
proof -
  let ?m = "new_message st im now"
  let ?st1 = "st\<lparr>currentMessageId := currentMessageId st + 1,
                 messages := AList.update (msg_id ?m) ?m (messages st)\<rparr>"
  have "store_ok ?st1"
    by (rule store_ok_update [OF assms]) (simp_all add: new_message_def)
  moreover have "snd (createMessage st im now)
      = ensure_conversation ?st1 (im_fromUserId im) (im_toUserId im) now"
    by (simp add: createMessage_def Let_def)
  ultimately show ?thesis
    by (auto intro: store_ok_same_messages)
qed

lemma store_ok_updateMessageStatus:
  assumes "store_ok st"
  shows "store_ok (snd (updateMessageStatus st i s))"
proof (cases "map_of (messages st) i")
  case None
  with assms show ?thesis by (simp add: updateMessageStatus_def)
next
  case (Some msg)
  then have "(i, msg) \<in> set (messages st)" by (rule map_of_SomeD)
  then have m: "msg_id msg = i" "i < currentMessageId st"
    using assms by (auto simp: store_ok_alt)
  have "store_ok (st\<lparr>currentMessageId := currentMessageId st,
                      messages := AList.update i (msg\<lparr>status := s\<rparr>) (messages st)\<rparr>)"
    by (rule store_ok_update [OF assms]) (simp_all add: m)
  with Some show ?thesis by (simp add: updateMessageStatus_def Let_def)
qed

lemma store_ok_updateMessage:
  assumes "store_ok st"
  shows "store_ok (snd (updateMessage st i c))"
proof (cases "map_of (messages st) i")
  case None
  with assms show ?thesis by (simp add: updateMessage_def)
next
  case (Some msg)
  then have "(i, msg) \<in> set (messages st)" by (rule map_of_SomeD)
  then have m: "msg_id msg = i" "i < currentMessageId st"
    using assms by (auto simp: store_ok_alt)
  have "store_ok (st\<lparr>currentMessageId := currentMessageId st,
                      messages := AList.update i (msg\<lparr>content := c\<rparr>) (messages st)\<rparr>)"
    by (rule store_ok_update [OF assms]) (simp_all add: m)
  with Some show ?thesis by (simp add: updateMessage_def Let_def)
qed

lemma store_ok_delete:
  "store_ok st \<Longrightarrow> store_ok (st\<lparr>messages := AList.delete i (messages st)\<rparr>)"
  unfolding AList.delete_eq by (rule store_ok_filter)

lemma store_ok_deleteMessage: "store_ok st \<Longrightarrow> store_ok (snd (deleteMessage st i))"
  by (simp add: deleteMessage_def store_ok_delete split: option.split)

lemma store_ok_delete_all:
  "store_ok st \<Longrightarrow>
   store_ok (foldl (\<lambda>s mid. s\<lparr>messages := AList.delete mid (messages s)\<rparr>) st ids)"
  by (induction ids arbitrary: st) (simp_all add: store_ok_delete)

lemma store_ok_deleteConversation:
  assumes "store_ok st"
  shows "store_ok (snd (deleteConversation st i u))"
proof -
  have "store_ok (s\<lparr>conversations := cs\<rparr>)" if "store_ok s" for s cs
    using that by (simp add: store_ok_def)
  then show ?thesis
    using assms
    by (simp add: deleteConversation_def Let_def store_ok_delete_all split: option.split)
qed

lemma store_ok_conversation_ops:
  "store_ok st \<Longrightarrow> store_ok (snd (createConversation st ic now))"
  "store_ok st \<Longrightarrow> store_ok (snd (updateConversationLastMessage st i t))"
  by (auto simp: store_ok_def createConversation_def updateConversationLastMessage_def Let_def
      split: option.split)

lemma store_ok_mark_read: "store_ok st \<Longrightarrow> store_ok (mark_read st ms)"
  unfolding mark_read_def
  by (induction ms arbitrary: st) (simp_all add: store_ok_updateMessageStatus)

lemma store_ok_apply_store_op: "store_ok st \<Longrightarrow> store_ok (apply_store_op st op)"
  by (cases op)
     (simp_all add: store_ok_createUser store_ok_createMessage store_ok_updateMessageStatus
        store_ok_updateMessage store_ok_deleteMessage store_ok_conversation_ops
        store_ok_deleteConversation store_ok_mark_read)

text \<open>Every store that the operations build from the seeded store is well-formed.\<close>

lemma store_ok_reachable: "store_ok (foldl apply_store_op initial_storage ops)"
proof -
  have "store_ok st \<Longrightarrow> store_ok (foldl apply_store_op st ops)" for st
    by (induction ops arbitrary: st) (simp_all add: store_ok_apply_store_op)
  then show ?thesis using store_ok_initial .
qed

subsection \<open>The registry keeps its keys unique\<close>

lemma clients_ws_send: "ws_send s ws p = Some s' \<Longrightarrow> clients s' = clients s"
  by (auto simp: ws_send_def split: if_splits)

lemma clients_fan_out [simp]: "clients (fan_out s ws m f t) = clients s"
  unfolding fan_out_def
  by (auto split: option.splits if_splits dest!: clients_ws_send)

lemma registry_ok_storage [simp]: "registry_ok (s\<lparr>storage := st\<rparr>) = registry_ok s"
  by (simp add: registry_ok_def)

lemma registry_ok_claim_socket: "registry_ok s \<Longrightarrow> registry_ok (claim_socket s ws f)"
proof -
  assume ok: "registry_ok s"
  have "registry_ok (set_conn_userId ws f s)" using ok by (simp add: registry_ok_def)
  then have "registry_ok (register_client ws f (set_conn_userId ws f s))"
    by (rule register_client_registry_ok)
  with ok show ?thesis by (simp add: claim_socket_def)
qed

lemma registry_ok_on_chat_message:
  assumes "registry_ok s"
  shows "registry_ok (on_chat_message s ws ev now)"
proof -
  have "registry_ok (mark_delivered_and_fan_out (s'\<lparr>storage := st\<rparr>) ws m f t)"
    if "registry_ok s'" for s' st m f t
    using that by (simp add: mark_delivered_and_fan_out_def registry_ok_def)
  then show ?thesis
    using assms registry_ok_claim_socket
    by (auto simp: on_chat_message_def persist_and_deliver_def Let_def split: option.split)
qed

lemma registry_ok_on_socket_close:
  assumes "registry_ok s"
  shows "registry_ok (on_socket_close s ws)"
proof -
  have "registry_ok (s1\<lparr>clients := AList.delete u (clients s1)\<rparr>)" if "registry_ok s1" for s1 u
    using that by (simp add: registry_ok_def distinct_delete)
  then show ?thesis
    using assms
    by (auto simp: on_socket_close_def Let_def broadcast_registry_ok registry_ok_evict
        split: option.split)
qed

lemma registry_ok_apply_event: "registry_ok s \<Longrightarrow> registry_ok (apply_event s e)"
  by (cases e)
     (simp_all add: on_register_registry_ok registry_ok_on_socket_close
        registry_ok_on_chat_message)

lemma registry_ok_reachable: "registry_ok (foldl apply_event initial_server evs)"
proof -
  have "registry_ok s \<Longrightarrow> registry_ok (foldl apply_event s evs)" for s
    by (induction evs arbitrary: s) (simp_all add: registry_ok_apply_event)
  moreover have "registry_ok initial_server"
    by (simp add: registry_ok_def initial_server_def)
  ultimately show ?thesis .
qed


lemma store_ok_handler_conversation:
  "handler_conversation st ev f t now = Some st3 \<Longrightarrow> store_ok st \<Longrightarrow> store_ok st3"
  by (auto simp: handler_conversation_def store_ok_conversation_ops split: option.splits)

lemma store_ok_on_chat_message:
  assumes "store_ok (storage s)"
  shows "store_ok (storage (on_chat_message s ws ev now))"
proof (cases "resolve_recipient (storage s) ev")
  case None
  with assms show ?thesis by (simp add: on_chat_message_def)
next
  case (Some t)
  let ?st1 = "snd (createMessage (storage s) (event_message ev (ev_fromUserId ev) t) now)"
  have ok1: "store_ok ?st1" by (rule store_ok_createMessage [OF assms])
  show ?thesis
  proof (cases "handler_conversation ?st1 ev (ev_fromUserId ev) t now")
    case None
    with Some ok1 show ?thesis
      by (simp add: on_chat_message_def persist_and_deliver_def Let_def)
  next
    case (Some st3)
    then have "store_ok st3" using ok1 by (rule store_ok_handler_conversation)
    then have "store_ok (snd (updateMessageStatus st3 i Delivered))" for i
      by (rule store_ok_updateMessageStatus)
    with Some \<open>resolve_recipient (storage s) ev = Some t\<close> show ?thesis
      by (simp add: on_chat_message_def persist_and_deliver_def Let_def
          mark_delivered_and_fan_out_def)
  qed
qed

lemma store_ok_apply_event: "store_ok (storage s) \<Longrightarrow> store_ok (storage (apply_event s e))"
  by (cases e) (simp_all add: store_ok_on_chat_message on_socket_close_def Let_def
      set_readyState_def split: option.split)

end
